theory Spec2Isabelle
  imports Main
begin

section \<open>String values\<close>

text \<open>
  Every string that group.ts handles (names, paths, ARNs) is a TypeScript \<^verbatim>\<open>string\<close>
  that is either plain text or text with deferred values embedded in it. A string value
  is modelled as a list of fragments: a literal character, an opaque deferred value that
  only emission resolves, or a deferred component of an ARN that is itself deferred.
  Concatenation (a template literal) is list append.
\<close>

datatype ArnField = Partition | Service | Region | Account | Resource | ResourceNameHead

datatype frag = is_Ch: Ch char | Tok nat | ArnPart ArnField "frag list"

type_synonym strval = "frag list"

definition lit :: "string \<Rightarrow> strval" where
  "lit s = map Ch s"

fun asLiteral :: "strval \<Rightarrow> string option" where
  "asLiteral [] = Some []"
| "asLiteral (Ch c # fs) = map_option ((#) c) (asLiteral fs)"
| "asLiteral (_ # fs) = None"

definition isUnresolved :: "strval \<Rightarrow> bool" where
  "isUnresolved v = (\<not> list_all is_Ch v)"

section \<open>The ARN service\<close>

datatype error = ArnParseError

datatype ArnFormat = SLASH_RESOURCE_NAME

text \<open>The \<^verbatim>\<open>ArnComponents\<close> interface: optional fields are options.\<close>

record ArnComponents =
  partition :: "strval option"
  service :: strval
  region :: "strval option"
  account :: "strval option"
  resource :: strval
  resourceName :: "strval option"

record Stack =
  stackPartition :: strval
  stackRegion :: strval
  stackAccount :: strval

text \<open>A construct scope: its path in the construct tree and the stack it belongs to.\<close>

record Construct =
  nodePath :: "string list"
  nodeStack :: Stack

definition Stack_of :: "Construct \<Rightarrow> Stack" where
  "Stack_of scope = nodeStack scope"

definition child :: "Construct \<Rightarrow> string \<Rightarrow> Construct" where
  "child scope ident = scope\<lparr>nodePath := nodePath scope @ [ident]\<rparr>"

definition splitAt :: "char \<Rightarrow> string \<Rightarrow> (string \<times> string) option" where
  "splitAt c s =
     (case dropWhile (\<lambda>x. x \<noteq> c) s of
        [] \<Rightarrow> None
      | _ # rest \<Rightarrow> Some (takeWhile (\<lambda>x. x \<noteq> c) s, rest))"

text \<open>
  Modelled from the spec: the parser behind \<^verbatim>\<open>Stack.splitArn\<close> (core/lib/arn.ts is not
  among the sources). Section 6: split(arn, convention) gives partition, service,
  region, account, resourceType and resourceName, and "the convention used here treats
  everything after the resource-type segment (including embedded /) as the resource
  name"; section 7: an ARN that does not match the slash-resource convention fails with
  a structural-parse error (here \<open>None\<close>). The result lists partition, service, region,
  account, resource type and resource name.
\<close>

definition parseArn :: "string \<Rightarrow> (string \<times> string \<times> string \<times> string \<times> string \<times> string) option" where
  "parseArn s =
     Option.bind (splitAt CHR '':'' s) (\<lambda>(a, s1).
     if a \<noteq> ''arn'' then None else
     Option.bind (splitAt CHR '':'' s1) (\<lambda>(p, s2).
     Option.bind (splitAt CHR '':'' s2) (\<lambda>(svc, s3).
     Option.bind (splitAt CHR '':'' s3) (\<lambda>(reg, s4).
     Option.bind (splitAt CHR '':'' s4) (\<lambda>(acct, s5).
     Option.bind (splitAt CHR ''/'' s5) (\<lambda>(res, name).
       Some (p, svc, reg, acct, res, name)))))))"

fun arnField :: "ArnField \<Rightarrow> string \<times> string \<times> string \<times> string \<times> string \<times> string \<Rightarrow> string" where
  "arnField Partition (p, svc, reg, acct, res, name) = p"
| "arnField Service (p, svc, reg, acct, res, name) = svc"
| "arnField Region (p, svc, reg, acct, res, name) = reg"
| "arnField Account (p, svc, reg, acct, res, name) = acct"
| "arnField Resource (p, svc, reg, acct, res, name) = res"
| "arnField ResourceNameHead (p, svc, reg, acct, res, name) = takeWhile (\<lambda>x. x \<noteq> CHR ''/'') name"

text \<open>
  Modelled from the spec: resolution of a string value at emission (the template engine
  is not among the sources). \<open>\<rho>\<close> gives each opaque deferred value its text. A deferred
  ARN component is read off the resolved ARN; the resource name of a deferred ARN
  "will only reflect the first path segment, not the full path" (section 4.1), which is
  \<open>ResourceNameHead\<close>. \<open>None\<close> is a failure at emission.
\<close>

fun resolveFrag :: "(nat \<Rightarrow> string) \<Rightarrow> frag \<Rightarrow> string option" where
  "resolveFrag \<rho> (Ch c) = Some [c]"
| "resolveFrag \<rho> (Tok t) = Some (\<rho> t)"
| "resolveFrag \<rho> (ArnPart f e) =
     (case those (map (resolveFrag \<rho>) e) of
        None \<Rightarrow> None
      | Some ss \<Rightarrow> map_option (arnField f) (parseArn (concat ss)))"

definition resolve :: "(nat \<Rightarrow> string) \<Rightarrow> strval \<Rightarrow> string option" where
  "resolve \<rho> v = map_option concat (those (map (resolveFrag \<rho>) v))"

text \<open>
  Modelled from the spec: \<^verbatim>\<open>Stack.splitArn(arn, ArnFormat.SLASH_RESOURCE_NAME)\<close>. A literal
  ARN is parsed at declaration time; a deferred one "cannot be parsed at declaration
  time" and yields deferred components.
\<close>

definition splitArn :: "Stack \<Rightarrow> strval \<Rightarrow> ArnFormat \<Rightarrow> error + ArnComponents" where
  "splitArn stack arn arnFormat =
     (case asLiteral arn of
        None \<Rightarrow>
          Inr \<lparr>partition = Some [ArnPart Partition arn],
               service = [ArnPart Service arn],
               region = Some [ArnPart Region arn],
               account = Some [ArnPart Account arn],
               resource = [ArnPart Resource arn],
               resourceName = Some [ArnPart ResourceNameHead arn]\<rparr>
      | Some s \<Rightarrow>
          (case parseArn s of
             None \<Rightarrow> Inl ArnParseError
           | Some (p, svc, reg, acct, res, name) \<Rightarrow>
               Inr \<lparr>partition = Some (lit p),
                    service = lit svc,
                    region = Some (lit reg),
                    account = Some (lit acct),
                    resource = lit res,
                    resourceName = Some (lit name)\<rparr>))"

text \<open>
  Modelled from the spec: \<^verbatim>\<open>Stack.formatArn\<close>. Section 6: format(service, region,
  resource, resourceName) gives the ARN; the glossary: an ARN encodes partition, service,
  region, account, resource type and resource name. Components left out come from the
  stack; resource type and name are joined by a slash.
\<close>

definition formatArn :: "Stack \<Rightarrow> ArnComponents \<Rightarrow> strval" where
  "formatArn stack c =
     lit ''arn:''
     @ (case partition c of None \<Rightarrow> stackPartition stack | Some p \<Rightarrow> p) @ lit '':''
     @ service c @ lit '':''
     @ (case region c of None \<Rightarrow> stackRegion stack | Some r \<Rightarrow> r) @ lit '':''
     @ (case account c of None \<Rightarrow> stackAccount stack | Some a \<Rightarrow> a) @ lit '':''
     @ resource c
     @ (case resourceName c of None \<Rightarrow> [] | Some n \<Rightarrow> lit ''/'' @ n)"

section \<open>Collaborators of the group\<close>

type_synonym ref = nat

text \<open>
  A managed policy is an immutable object: its identity (what \<^verbatim>\<open>===\<close> compares) is
  the tag, and two distinct objects may carry the same ARN.
\<close>

datatype IManagedPolicy = ManagedPolicy (policyTag: nat) (managedPolicyArn: strval)

datatype PolicyStatement = Statement string

text \<open>
  Modelled from the spec: the inline \<^verbatim>\<open>Policy\<close> object (policy.ts is not among the
  sources). Section 6: it "exposes attachToGroup(group) and addStatements(...statements)";
  section 4.2: through attachToGroup "the policy object is informed it is now attached
  to this group". A policy is a construct (scope and id) with its statements and the
  groups it was told about, each group named by its path in the construct tree.
\<close>

record Policy =
  policyScope :: "string list"
  policyId :: string
  policyStatements :: "PolicyStatement list"
  policyGroups :: "string list list"

text \<open>
  The application under declaration: the store of the mutable \<^verbatim>\<open>Policy\<close> objects,
  which the group and its callers share by reference, and the next unused identifier
  (for object references and for deferred values). A method call on a policy updates the
  object at its reference; a reference obtained from \<open>Policy_new\<close> always points into the
  store, so the other case of \<open>updPolicy\<close> does not arise from a group's own calls.
\<close>

record App =
  nextId :: nat
  policies :: "ref \<rightharpoonup> Policy"

definition updPolicy :: "ref \<Rightarrow> (Policy \<Rightarrow> Policy) \<Rightarrow> App \<Rightarrow> App" where
  "updPolicy r f app =
     (case policies app r of
        None \<Rightarrow> app
      | Some p \<Rightarrow> app\<lparr>policies := (policies app)(r \<mapsto> f p)\<rparr>)"

definition Policy_new :: "Construct \<Rightarrow> string \<Rightarrow> App \<Rightarrow> ref \<times> App" where
  "Policy_new scope ident app =
     (nextId app,
      app\<lparr>nextId := Suc (nextId app),
          policies := (policies app)(nextId app \<mapsto>
            \<lparr>policyScope = nodePath scope, policyId = ident,
             policyStatements = [], policyGroups = []\<rparr>)\<rparr>)"

definition Policy_addStatements :: "ref \<Rightarrow> PolicyStatement list \<Rightarrow> App \<Rightarrow> App" where
  "Policy_addStatements r sts app =
     updPolicy r (\<lambda>p. p\<lparr>policyStatements := policyStatements p @ sts\<rparr>) app"

text \<open>
  Modelled from the spec: \<^verbatim>\<open>AttachedPolicies.attach\<close> (private/util.ts is not among the
  sources). Section 4.2: "the ledger records the policy as attached to this group" and
  "a policy attached twice must not be double-counted".
\<close>

definition AttachedPolicies_attach :: "ref list \<Rightarrow> ref \<Rightarrow> ref list" where
  "AttachedPolicies_attach ledger r = (if r \<in> set ledger then ledger else ledger @ [r])"

text \<open>
  Modelled from the spec: a deferred value handed out by the framework (a generated
  physical name, the references of a declared resource) is a fresh opaque token.
\<close>

definition freshToken :: "App \<Rightarrow> strval \<times> App" where
  "freshToken app = ([Tok (nextId app)], app\<lparr>nextId := Suc (nextId app)\<rparr>)"

section \<open>GroupBase\<close>

text \<open>
  The fields of the abstract class (lines 71-80). \<open>groupName\<close> is an option because
  \<^verbatim>\<open>fromGroupArn\<close> copies an optional component into it with a non-null assertion,
  which checks nothing when the code runs. \<^verbatim>\<open>grantPrincipal\<close> is the object itself, and
  \<^verbatim>\<open>policyFragment\<close> and \<^verbatim>\<open>addUser\<close> only delegate to objects outside this file; they
  carry no state of the group and are left out.
\<close>

record GroupBase =
  node :: Construct
  groupName :: "strval option"
  groupArn :: strval
  principalAccount :: "strval option"
  assumeRoleAction :: string
  attachedPolicies :: "ref list"
  defaultPolicy :: "ref option"

record AddToPrincipalPolicyResult =
  statementAdded :: bool
  policyDependable :: ref

text \<open>
  Modelled from the spec: \<^verbatim>\<open>Policy.attachToGroup(group)\<close>. Section 4.2: attaching
  registers "the relationship bidirectionally: the ledger records the policy as attached
  to this group, and the policy object is informed it is now attached to this group",
  and the default policy is attached "via the same path as attachInlinePolicy". The
  policy calls the group back, so the call changes both objects: the policy notes the
  group, and the group's ledger records the policy. A group the policy already knows is
  not noted again, which is also what ends the exchange of calls between the two.
\<close>

definition Policy_attachToGroup ::
  "ref \<Rightarrow> 'a GroupBase_scheme \<Rightarrow> App \<Rightarrow> 'a GroupBase_scheme \<times> App" where
  "Policy_attachToGroup r g app =
     (g\<lparr>attachedPolicies := AttachedPolicies_attach (attachedPolicies g) r\<rparr>,
      updPolicy r (\<lambda>p. if nodePath (node g) \<in> set (policyGroups p) then p
                       else p\<lparr>policyGroups := policyGroups p @ [nodePath (node g)]\<rparr>) app)"

text \<open>Lines 90-93.\<close>

definition attachInlinePolicy :: "'a GroupBase_scheme \<Rightarrow> ref \<Rightarrow> App \<Rightarrow> 'a GroupBase_scheme \<times> App" where
  "attachInlinePolicy g policy app =
     (let g1 = g\<lparr>attachedPolicies := AttachedPolicies_attach (attachedPolicies g) policy\<rparr>
      in Policy_attachToGroup policy g1 app)"

text \<open>Lines 95-97: the base class drops the policy.\<close>

definition GroupBase_addManagedPolicy :: "GroupBase \<Rightarrow> IManagedPolicy \<Rightarrow> GroupBase" where
  "GroupBase_addManagedPolicy g policy = g"

text \<open>
  Lines 109-117. After the \<^verbatim>\<open>if\<close> the default policy is set, so the statements that
  follow it are written once in each branch.
\<close>

definition addToPrincipalPolicy ::
  "'a GroupBase_scheme \<Rightarrow> PolicyStatement \<Rightarrow> App
     \<Rightarrow> AddToPrincipalPolicyResult \<times> 'a GroupBase_scheme \<times> App" where
  "addToPrincipalPolicy g statement app =
     (case defaultPolicy g of
        None \<Rightarrow>
          (let (r, app1) = Policy_new (node g) ''DefaultPolicy'' app;
               g1 = g\<lparr>defaultPolicy := Some r\<rparr>;
               (g2, app2) = Policy_attachToGroup r g1 app1
           in (\<lparr>statementAdded = True, policyDependable = r\<rparr>,
               g2,
               Policy_addStatements r [statement] app2))
      | Some r \<Rightarrow>
          (\<lparr>statementAdded = True, policyDependable = r\<rparr>,
           g,
           Policy_addStatements r [statement] app))"

definition addToPolicy ::
  "'a GroupBase_scheme \<Rightarrow> PolicyStatement \<Rightarrow> App \<Rightarrow> bool \<times> 'a GroupBase_scheme \<times> App" where
  "addToPolicy g statement app =
     (let (res, g', app') = addToPrincipalPolicy g statement app
      in (statementAdded res, g', app'))"

section \<open>Group\<close>

record GroupProps =
  props_groupName :: "strval option"
  props_managedPolicies :: "IManagedPolicy list option"
  props_path :: "strval option"

text \<open>
  The owned group: the base fields, the physical name kept by \<^verbatim>\<open>Resource\<close>, the
  private list of managed policies, and the warnings that \<^verbatim>\<open>Annotations\<close> has recorded
  on this construct.
\<close>

record Group = GroupBase +
  physicalName :: strval
  managedPolicies :: "IManagedPolicy list"
  annotations :: "strval list"

text \<open>A value of the interface \<^verbatim>\<open>IGroup\<close> is an imported group or an owned one.\<close>

datatype IGroup = Import GroupBase | Owned Group

text \<open>Decimal text of a count, as a template literal prints a number.\<close>

function showNat :: "nat \<Rightarrow> string" where
  "showNat n =
     (if n < 10 then [''0123456789'' ! n]
      else showNat (n div 10) @ [''0123456789'' ! (n mod 10)])"
  by pat_completeness auto
termination
  by (relation "measure id") auto

text \<open>
  Modelled from the spec: \<^verbatim>\<open>Annotations.of(this).addWarning\<close>. Section 6: the
  diagnostics channel is "non-fatal ... never throws"; the warning is recorded.
\<close>

definition addWarning :: "strval \<Rightarrow> Group \<Rightarrow> Group" where
  "addWarning message g = g\<lparr>annotations := annotations g @ [message]\<rparr>"

text \<open>Lines 219-223; the message is the template literal of line 221.\<close>

definition warningMessage :: "nat \<Rightarrow> strval \<Rightarrow> strval" where
  "warningMessage n physName =
     lit ''You added '' @ lit (showNat n) @ lit '' to IAM Group '' @ physName
     @ lit ''. The maximum number of managed policies attached to an IAM group is 10.''"

definition managedPoliciesExceededWarning :: "Group \<Rightarrow> Group" where
  "managedPoliciesExceededWarning g =
     (if length (managedPolicies g) > 10 then
        addWarning (warningMessage (length (managedPolicies g)) (physicalName g)) g
      else g)"

text \<open>Lines 213-217. \<^verbatim>\<open>find\<close> returns the element found, an object, which is truthy.\<close>

definition Group_addManagedPolicy :: "Group \<Rightarrow> IManagedPolicy \<Rightarrow> Group" where
  "Group_addManagedPolicy g policy =
     (if find (\<lambda>mp. mp = policy) (managedPolicies g) \<noteq> None then g
      else managedPoliciesExceededWarning
             (g\<lparr>managedPolicies := managedPolicies g @ [policy]\<rparr>))"

text \<open>The call \<^verbatim>\<open>g.addManagedPolicy(p)\<close> on a value of the interface.\<close>

fun addManagedPolicy :: "IGroup \<Rightarrow> IManagedPolicy \<Rightarrow> IGroup" where
  "addManagedPolicy (Import g) policy = Import (GroupBase_addManagedPolicy g policy)"
| "addManagedPolicy (Owned g) policy = Owned (Group_addManagedPolicy g policy)"

text \<open>
  Modelled from the spec: \<^verbatim>\<open>Lazy.list(producer, options)\<close>. Section 4.3: "a lazy
  producer ... invoked only once, at final emission, returning the current snapshot",
  "with empty lists omitted entirely from the emitted template". The producer reads the
  state of the object it captured, so it is a function of that state; \<open>None\<close> is an
  attribute left out of the template.
\<close>

record 's LazyList =
  produce :: "'s \<Rightarrow> strval list"
  omitEmpty :: bool

definition resolveLazyList :: "'s LazyList \<Rightarrow> 's \<Rightarrow> strval list option" where
  "resolveLazyList l s =
     (let v = produce l s in if omitEmpty l \<and> v = [] then None else Some v)"

text \<open>
  The declared resource \<^verbatim>\<open>CfnGroup\<close>: its three properties as the constructor passes
  them (lines 189-193) and the two references it hands back.
\<close>

record CfnGroup =
  cfn_groupName :: strval
  cfn_managedPolicyArns :: "Group LazyList"
  cfn_path :: "strval option"
  cfn_ref :: strval
  cfn_attrArn :: strval

text \<open>What emission writes for the group's resource, given the group's final state.\<close>

record CfnGroupTemplate =
  tpl_groupName :: strval
  tpl_managedPolicyArns :: "strval list option"
  tpl_path :: "strval option"

definition emit :: "CfnGroup \<Rightarrow> Group \<Rightarrow> CfnGroupTemplate" where
  "emit res g =
     \<lparr>tpl_groupName = cfn_groupName res,
      tpl_managedPolicyArns = resolveLazyList (cfn_managedPolicyArns res) g,
      tpl_path = cfn_path res\<rparr>"

text \<open>
  Line 201: the path part of the resource name. An empty path is falsy; the first
  character of a string that starts with a deferred value is not a slash.
\<close>

definition pathPrefix :: "strval option \<Rightarrow> strval" where
  "pathPrefix path =
     (case path of
        None \<Rightarrow> []
      | Some p \<Rightarrow>
          if p = [] then []
          else if hd p = Ch CHR ''/'' then drop 1 p else drop 0 p)"

text \<open>Lines 196-202: the components handed to \<^verbatim>\<open>getResourceArnAttribute\<close>.\<close>

definition groupArnComponents :: "GroupProps \<Rightarrow> strval \<Rightarrow> ArnComponents" where
  "groupArnComponents props physName =
     \<lparr>partition = None,
      service = lit ''iam'',
      region = Some (lit ''''),
      account = None,
      resource = lit ''group'',
      resourceName = Some (pathPrefix (props_path props) @ physName)\<rparr>"

text \<open>
  Modelled from the spec: \<^verbatim>\<open>Resource.getResourceNameAttribute\<close> and
  \<^verbatim>\<open>Resource.getResourceArnAttribute\<close> (core/lib/resource.ts is not among the sources).
  Section 3: the name is "resolved either from user input or from the external naming
  service", here the engine's reference; the ARN is "computed by combining
  partition/region/service/resource-type/name" (section 4.1, computeArnFromOwnedGroup).
\<close>

definition getResourceNameAttribute :: "strval \<Rightarrow> strval" where
  "getResourceNameAttribute nameAttr = nameAttr"

definition getResourceArnAttribute :: "Stack \<Rightarrow> strval \<Rightarrow> ArnComponents \<Rightarrow> strval" where
  "getResourceArnAttribute stack arnAttr arnComponents = formatArn stack arnComponents"

text \<open>
  Modelled from the spec: the physical name that \<^verbatim>\<open>Resource\<close> keeps is the name given
  in the properties, or a deferred value when none is given.
\<close>

definition Resource_physicalName :: "strval option \<Rightarrow> App \<Rightarrow> strval \<times> App" where
  "Resource_physicalName given app =
     (case given of None \<Rightarrow> freshToken app | Some n \<Rightarrow> (n, app))"

text \<open>The idiom \<^verbatim>\<open>xs || []\<close> on an optional list.\<close>

definition orEmpty :: "'a list option \<Rightarrow> 'a list" where
  "orEmpty xs = (case xs of None \<Rightarrow> [] | Some ys \<Rightarrow> ys)"

text \<open>The constructor, lines 182-205.\<close>

definition Group_new :: "Construct \<Rightarrow> string \<Rightarrow> GroupProps \<Rightarrow> App \<Rightarrow> Group \<times> CfnGroup \<times> App" where
  "Group_new scope ident props app =
     (let this = child scope ident;
          (physName, app1) = Resource_physicalName (props_groupName props) app;
          mps = [] @ orEmpty (props_managedPolicies props);
          (refTok, app2) = freshToken app1;
          (arnTok, app3) = freshToken app2;
          grp = \<lparr>cfn_groupName = physName,
                 cfn_managedPolicyArns =
                   \<lparr>produce = (\<lambda>g. map managedPolicyArn (managedPolicies g)),
                    omitEmpty = True\<rparr>,
                 cfn_path = props_path props,
                 cfn_ref = refTok,
                 cfn_attrArn = arnTok\<rparr>;
          g = \<lparr>node = this,
               groupName = Some (getResourceNameAttribute (cfn_ref grp)),
               groupArn = getResourceArnAttribute (Stack_of this) (cfn_attrArn grp)
                            (groupArnComponents props physName),
               principalAccount = Some (stackAccount (Stack_of this)),
               assumeRoleAction = ''sts:AssumeRole'',
               attachedPolicies = [],
               defaultPolicy = None,
               physicalName = physName,
               managedPolicies = mps,
               annotations = []\<rparr>
      in (managedPoliciesExceededWarning g, grp, app3))"

section \<open>Imported groups\<close>

text \<open>Lines 147-157: the class \<^verbatim>\<open>Import\<close> overrides three fields of the base class.\<close>

definition fromGroupArn :: "Construct \<Rightarrow> string \<Rightarrow> strval \<Rightarrow> error + IGroup" where
  "fromGroupArn scope ident arn =
     (case splitArn (Stack_of scope) arn SLASH_RESOURCE_NAME of
        Inl e \<Rightarrow> Inl e
      | Inr arnComponents \<Rightarrow>
          Inr (Import
            \<lparr>node = child scope ident,
             groupName = resourceName arnComponents,
             groupArn = arn,
             principalAccount = account arnComponents,
             assumeRoleAction = ''sts:AssumeRole'',
             attachedPolicies = [],
             defaultPolicy = None\<rparr>))"

text \<open>Lines 167-175.\<close>

definition fromGroupName :: "Construct \<Rightarrow> string \<Rightarrow> strval \<Rightarrow> error + IGroup" where
  "fromGroupName scope ident name =
     (let arn = formatArn (Stack_of scope)
                  \<lparr>partition = None,
                   service = lit ''iam'',
                   region = Some (lit ''''),
                   account = None,
                   resource = lit ''group'',
                   resourceName = Some name\<rparr>
      in fromGroupArn scope ident arn)"

section \<open>The specification's wording\<close>

text \<open>
  Section 4.1, computeArnFromOwnedGroup: the resource name is "the path (with any single
  leading / stripped) concatenated with the physical name", an absent path being empty.
\<close>

definition spec_stripLeadingSlash :: "strval \<Rightarrow> strval" where
  "spec_stripLeadingSlash p =
     (case p of Ch c # rest \<Rightarrow> if c = CHR ''/'' then rest else p | _ \<Rightarrow> p)"

definition spec_resourceName :: "strval option \<Rightarrow> strval \<Rightarrow> strval" where
  "spec_resourceName path physName =
     spec_stripLeadingSlash (case path of None \<Rightarrow> [] | Some p \<Rightarrow> p) @ physName"

section \<open>Example values\<close>

definition demoStack :: Stack where
  "demoStack = \<lparr>stackPartition = [Tok 0], stackRegion = [Tok 1], stackAccount = lit ''123456789012''\<rparr>"

definition demoScope :: Construct where
  "demoScope = \<lparr>nodePath = [''App'', ''Stack''], nodeStack = demoStack\<rparr>"

definition demoApp :: App where
  "demoApp = \<lparr>nextId = 2, policies = Map.empty\<rparr>"

definition demoEnv :: "nat \<Rightarrow> string" where
  "demoEnv t = (if t = 0 then ''aws'' else if t = 1 then ''eu-west-1'' else ''arn:aws:iam::123456789012:group/AdminGroup/NetworkAdmin'')"

definition demoPolicy :: "nat \<Rightarrow> IManagedPolicy" where
  "demoPolicy k = ManagedPolicy k (lit ''arn:aws:iam::aws:policy/'' @ lit (showNat k))"

definition demoProps :: "IManagedPolicy list \<Rightarrow> GroupProps" where
  "demoProps ps =
     \<lparr>props_groupName = Some (lit ''NetAdmin''),
      props_managedPolicies = Some ps,
      props_path = Some (lit ''/admins/'')\<rparr>"

definition demoBase :: GroupBase where
  "demoBase =
     \<lparr>node = \<lparr>nodePath = [''App'', ''Stack'', ''Imported''], nodeStack = demoStack\<rparr>,
             groupName = Some (lit ''AdminGroup/NetworkAdmin''),
             groupArn = lit ''arn:aws:iam::123456789012:group/AdminGroup/NetworkAdmin'',
             principalAccount = Some (lit ''123456789012''),
             assumeRoleAction = ''sts:AssumeRole'',
             attachedPolicies = [], defaultPolicy = None\<rparr>"

definition demoImported :: IGroup where
  "demoImported = Import demoBase"

section \<open>The managed-policy list\<close>

lemma find_eq_None_iff: "(find (\<lambda>mp. mp = p) xs = None) = (p \<notin> set xs)"
  by (induction xs) auto

lemma managedPolicies_warning [simp]:
  "managedPolicies (managedPoliciesExceededWarning g) = managedPolicies g"
  by (simp add: managedPoliciesExceededWarning_def addWarning_def)

lemma physicalName_warning [simp]:
  "physicalName (managedPoliciesExceededWarning g) = physicalName g"
  by (simp add: managedPoliciesExceededWarning_def addWarning_def)

lemma managedPolicies_add:
  "managedPolicies (Group_addManagedPolicy g p) =
     (if p \<in> set (managedPolicies g) then managedPolicies g else managedPolicies g @ [p])"
  by (simp add: Group_addManagedPolicy_def find_eq_None_iff)

lemma set_foldl_add:
  "set (managedPolicies (foldl Group_addManagedPolicy g ps)) = set (managedPolicies g) \<union> set ps"
  by (induction ps arbitrary: g) (auto simp: managedPolicies_add)

lemma managedPolicies_new:
  "managedPolicies (fst (Group_new scope ident props app)) = orEmpty (props_managedPolicies props)"
  by (simp add: Group_new_def Let_def split: prod.splits)

text \<open>
  C1. The list is meant never to hold the same policy reference twice, and
  \<open>addManagedPolicy\<close> keeps it so by its identity check (line 214): added again to a group
  that holds it, a policy is not appended. The constructor (line 187) pushes the batch
  without that check: given the batch \<open>[P, P]\<close> it leaves \<open>P\<close> twice in the list, and
  the list still holds it twice after further additions.
\<close>

theorem constructor_keeps_duplicate_batch:
  "managedPolicies
     (fst (Group_new demoScope ''Admins'' (demoProps [demoPolicy 1, demoPolicy 1]) demoApp))
     = [demoPolicy 1, demoPolicy 1]
   \<and> \<not> distinct (managedPolicies
        (foldl Group_addManagedPolicy
           (fst (Group_new demoScope ''Admins'' (demoProps [demoPolicy 1, demoPolicy 1]) demoApp))
           [demoPolicy 2, demoPolicy 1]))
   \<and> managedPolicies
       (Group_addManagedPolicy
          (fst (Group_new demoScope ''Admins'' (demoProps [demoPolicy 1]) demoApp))
          (demoPolicy 1))
     = [demoPolicy 1]"
  by (simp add: managedPolicies_new managedPolicies_add demoProps_def orEmpty_def)

section \<open>The capacity warning\<close>

lemma annotations_warning:
  "annotations (managedPoliciesExceededWarning g) =
     (if length (managedPolicies g) > 10
      then annotations g @ [warningMessage (length (managedPolicies g)) (physicalName g)]
      else annotations g)"
  by (simp add: managedPoliciesExceededWarning_def addWarning_def)

lemma annotations_new:
  "annotations (fst (Group_new scope ident props app)) =
     (if length (orEmpty (props_managedPolicies props)) > 10
      then [warningMessage (length (orEmpty (props_managedPolicies props)))
              (physicalName (fst (Group_new scope ident props app)))]
      else [])"
  by (simp add: Group_new_def Let_def annotations_warning split: prod.splits)

lemma annotations_add:
  "annotations (Group_addManagedPolicy g p) =
     (if p \<notin> set (managedPolicies g) \<and> length (managedPolicies g) \<ge> 10
      then annotations g @ [warningMessage (Suc (length (managedPolicies g))) (physicalName g)]
      else annotations g)"
  by (auto simp add: Group_addManagedPolicy_def find_eq_None_iff annotations_warning)

text \<open>
  C4. The constructor checks the count once, after the whole batch: it records one
  warning when the batch holds more than 10 policies and none otherwise, so a batch of
  11 gives exactly one warning. An addition records one more warning exactly when it
  appends and the new count exceeds 10; an addition of a reference already present
  checks nothing. In every case the list is updated as without the warning.
\<close>

theorem capacity_warning:
  "annotations (fst (Group_new scope ident props app)) =
     (if length (orEmpty (props_managedPolicies props)) > 10
      then [warningMessage (length (orEmpty (props_managedPolicies props)))
              (physicalName (fst (Group_new scope ident props app)))]
      else [])
   \<and> managedPolicies (fst (Group_new scope ident props app)) = orEmpty (props_managedPolicies props)
   \<and> (length (orEmpty (props_managedPolicies props)) = 11 \<longrightarrow>
        length (annotations (fst (Group_new scope ident props app))) = 1)
   \<and> annotations (Group_addManagedPolicy g p) =
       (if p \<notin> set (managedPolicies g) \<and> Suc (length (managedPolicies g)) > 10
        then annotations g @ [warningMessage (Suc (length (managedPolicies g))) (physicalName g)]
        else annotations g)
   \<and> managedPolicies (Group_addManagedPolicy g p) =
       (if p \<in> set (managedPolicies g) then managedPolicies g else managedPolicies g @ [p])"
proof (intro conjI impI)
  show "annotations (fst (Group_new scope ident props app)) =
     (if length (orEmpty (props_managedPolicies props)) > 10
      then [warningMessage (length (orEmpty (props_managedPolicies props)))
              (physicalName (fst (Group_new scope ident props app)))]
      else [])"
    by (rule annotations_new)
  show "managedPolicies (fst (Group_new scope ident props app)) = orEmpty (props_managedPolicies props)"
    by (rule managedPolicies_new)
  show "length (annotations (fst (Group_new scope ident props app))) = 1"
    if "length (orEmpty (props_managedPolicies props)) = 11"
    using that by (simp add: annotations_new)
  show "annotations (Group_addManagedPolicy g p) =
       (if p \<notin> set (managedPolicies g) \<and> Suc (length (managedPolicies g)) > 10
        then annotations g @ [warningMessage (Suc (length (managedPolicies g))) (physicalName g)]
        else annotations g)"
    by (simp add: annotations_add Suc_le_eq less_Suc_eq_le)
  show "managedPolicies (Group_addManagedPolicy g p) =
       (if p \<in> set (managedPolicies g) then managedPolicies g else managedPolicies g @ [p])"
    by (rule managedPolicies_add)
qed

theorem capacity_warning_witness:
  "length (orEmpty (props_managedPolicies (demoProps (map demoPolicy [0..<11])))) = 11
   \<and> length (annotations
        (fst (Group_new demoScope ''Admins'' (demoProps (map demoPolicy [0..<11])) demoApp))) = 1
   \<and> annotations
        (fst (Group_new demoScope ''Admins'' (demoProps (map demoPolicy [0..<11])) demoApp))
      = [lit ''You added 11 to IAM Group NetAdmin. The maximum number of managed policies attached to an IAM group is 10.'']"
  using capacity_warning [of demoScope "''Admins''" "demoProps (map demoPolicy [0..<11])" demoApp]
  by (simp add: demoProps_def orEmpty_def warningMessage_def lit_def Group_new_def
      Resource_physicalName_def freshToken_def Let_def)

section \<open>Imported groups and managed policies\<close>

lemma fromGroupArn_Import:
  "fromGroupArn scope ident arn = Inr g \<Longrightarrow> \<exists>b. g = Import b"
  by (auto simp: fromGroupArn_def split: sum.splits)

lemma fromGroupName_Import:
  "fromGroupName scope ident name = Inr g \<Longrightarrow> \<exists>b. g = Import b"
  by (auto simp: fromGroupName_def Let_def dest: fromGroupArn_Import)

lemma foldl_add_Import: "foldl addManagedPolicy (Import b) ps = Import b"
  by (induction ps) (simp_all add: GroupBase_addManagedPolicy_def)

section \<open>Splitting and resolving ARNs\<close>

lemma splitAt_append:
  assumes "c \<notin> set a"
  shows "splitAt c (a @ c # rest) = Some (a, rest)"
proof -
  have ne: "\<And>x. x \<in> set a \<Longrightarrow> x \<noteq> c"
    using assms by auto
  have "takeWhile (\<lambda>x. x \<noteq> c) (a @ c # rest) = a"
    using ne by simp
  moreover have "dropWhile (\<lambda>x. x \<noteq> c) (a @ c # rest) = c # rest"
    using ne by simp
  ultimately show ?thesis
    by (simp add: splitAt_def)
qed

lemma parseArn_shape:
  assumes "CHR '':'' \<notin> set p" "CHR '':'' \<notin> set svc" "CHR '':'' \<notin> set reg"
    "CHR '':'' \<notin> set acct" "CHR ''/'' \<notin> set t"
  shows "parseArn (''arn:'' @ p @ '':'' @ svc @ '':'' @ reg @ '':'' @ acct @ '':'' @ t @ ''/'' @ n)
           = Some (p, svc, reg, acct, t, n)"
proof -
  have 0: "splitAt CHR '':'' (''arn'' @ CHR '':'' # x) = Some (''arn'', x)" for x
    by (rule splitAt_append) simp
  show ?thesis
    using assms by (simp add: parseArn_def 0 [simplified] splitAt_append)
qed

lemma asLiteral_lit [simp]: "asLiteral (lit s) = Some s"
  by (induction s) (simp_all add: lit_def)

lemma asLiteral_None_iff: "(asLiteral v = None) = isUnresolved v"
  unfolding isUnresolved_def
  by (induction v rule: asLiteral.induct) simp_all

lemma those_append:
  "those (xs @ ys) =
     (case those xs of None \<Rightarrow> None | Some a \<Rightarrow> map_option ((@) a) (those ys))"
proof (induction xs)
  case Nil
  show ?case by (cases "those ys") simp_all
next
  case (Cons x xs)
  show ?case
  proof (cases x)
    case None
    then show ?thesis by simp
  next
    case (Some v)
    with Cons show ?thesis
      by (cases "those xs"; cases "those ys") simp_all
  qed
qed

lemma resolve_append:
  "resolve \<rho> (a @ b) =
     (case resolve \<rho> a of None \<Rightarrow> None | Some x \<Rightarrow> map_option ((@) x) (resolve \<rho> b))"
  unfolding resolve_def
  by (cases "those (map (resolveFrag \<rho>) a)"; cases "those (map (resolveFrag \<rho>) b)")
     (simp_all add: those_append)

lemma resolve_lit [simp]: "resolve \<rho> (lit s) = Some s"
proof (induction s)
  case Nil
  show ?case by (simp add: resolve_def lit_def)
next
  case (Cons c s)
  have "resolve \<rho> (lit (c # s)) = resolve \<rho> ([Ch c] @ lit s)"
    by (simp add: lit_def)
  also have "\<dots> = Some (c # s)"
    unfolding resolve_append using Cons by (simp add: resolve_def)
  finally show ?case .
qed

lemma resolve_ArnPart:
  "resolve \<rho> e = Some s \<Longrightarrow> resolve \<rho> [ArnPart f e] = map_option (arnField f) (parseArn s)"
  by (auto simp: resolve_def split: option.splits)

lemma fromGroupArn_literal:
  assumes "parseArn s = Some (p, svc, reg, acct, t, n)"
  shows "fromGroupArn scope ident (lit s) =
           Inr (Import \<lparr>node = child scope ident, groupName = Some (lit n), groupArn = lit s,
                        principalAccount = Some (lit acct), assumeRoleAction = ''sts:AssumeRole'',
                        attachedPolicies = [], defaultPolicy = None\<rparr>)"
  using assms by (simp add: fromGroupArn_def splitArn_def)

lemma fromGroupArn_deferred:
  assumes "isUnresolved arn"
  shows "fromGroupArn scope ident arn =
           Inr (Import \<lparr>node = child scope ident,
                        groupName = Some [ArnPart ResourceNameHead arn], groupArn = arn,
                        principalAccount = Some [ArnPart Account arn],
                        assumeRoleAction = ''sts:AssumeRole'',
                        attachedPolicies = [], defaultPolicy = None\<rparr>)"
  using assms by (simp add: fromGroupArn_def splitArn_def asLiteral_None_iff [symmetric])

lemma takeWhile_head: "c \<notin> set seg \<Longrightarrow> takeWhile (\<lambda>x. x \<noteq> c) (seg @ c # rest) = seg"
  by (induction seg) auto

lemma takeWhile_all: "c \<notin> set n \<Longrightarrow> takeWhile (\<lambda>x. x \<noteq> c) n = n"
  by (induction n) auto

lemma demo_parse:
  "parseArn ''arn:aws:iam::123456789012:group/AdminGroup/NetworkAdmin''
     = Some (''aws'', ''iam'', '''', ''123456789012'', ''group'', ''AdminGroup/NetworkAdmin'')"
  using parseArn_shape [of "''aws''" "''iam''" "''''" "''123456789012''" "''group''"
      "''AdminGroup/NetworkAdmin''"]
  by simp

text \<open>
  C2. A group obtained from \<open>fromGroupArn\<close> or \<open>fromGroupName\<close> is an \<open>Import\<close>, whose
  \<open>addManagedPolicy\<close> is the one of the base class: every call, and every sequence of
  calls, returns the group as it was (name, ARN, principal account, attached policies
  and default policy), and the call has no error result.
\<close>

theorem imported_addManagedPolicy_noop:
  assumes "fromGroupArn scope ident arn = Inr g \<or> fromGroupName scope ident name = Inr g"
  shows "addManagedPolicy g p = g \<and> foldl addManagedPolicy g ps = g"
proof -
  from assms obtain b where "g = Import b"
    using fromGroupArn_Import fromGroupName_Import by blast
  then show ?thesis
    by (simp add: foldl_add_Import GroupBase_addManagedPolicy_def)
qed

theorem imported_addManagedPolicy_noop_witness:
  "fromGroupArn demoScope ''Imported''
       (lit ''arn:aws:iam::123456789012:group/AdminGroup/NetworkAdmin'') = Inr demoImported
   \<and> addManagedPolicy demoImported (demoPolicy 1) = demoImported
   \<and> foldl addManagedPolicy demoImported [demoPolicy 1, demoPolicy 1, demoPolicy 2] = demoImported"
proof -
  have h: "fromGroupArn demoScope ''Imported''
       (lit ''arn:aws:iam::123456789012:group/AdminGroup/NetworkAdmin'') = Inr demoImported"
    by (simp add: fromGroupArn_literal [OF demo_parse] demoImported_def demoBase_def child_def
        demoScope_def)
  show ?thesis
    using h imported_addManagedPolicy_noop [OF disjI1 [OF h]] by simp
qed

text \<open>
  C7 (the splitter is modelled from the spec). For a literal ARN of the shape
  \<open>arn:p:svc:reg:acct:t/n\<close>, with colon-free fields and a resource type \<open>t\<close> without a
  slash, the imported group has the whole of \<open>n\<close> as its name, slashes included, and
  the ARN as it was given; when \<open>n\<close> contains a slash this differs from its first
  segment.
\<close>

theorem literal_arn_full_name:
  assumes "CHR '':'' \<notin> set p" "CHR '':'' \<notin> set svc" "CHR '':'' \<notin> set reg"
    "CHR '':'' \<notin> set acct" "CHR ''/'' \<notin> set t"
  shows "fromGroupArn scope ident
           (lit (''arn:'' @ p @ '':'' @ svc @ '':'' @ reg @ '':'' @ acct @ '':'' @ t @ ''/'' @ n)) =
         Inr (Import \<lparr>node = child scope ident,
                      groupName = Some (lit n),
                      groupArn = lit (''arn:'' @ p @ '':'' @ svc @ '':'' @ reg @ '':'' @ acct @ '':'' @ t @ ''/'' @ n),
                      principalAccount = Some (lit acct),
                      assumeRoleAction = ''sts:AssumeRole'',
                      attachedPolicies = [], defaultPolicy = None\<rparr>)
         \<and> (CHR ''/'' \<in> set n \<longrightarrow> lit n \<noteq> lit (takeWhile (\<lambda>x. x \<noteq> CHR ''/'') n))"
proof
  show "fromGroupArn scope ident
           (lit (''arn:'' @ p @ '':'' @ svc @ '':'' @ reg @ '':'' @ acct @ '':'' @ t @ ''/'' @ n)) =
         Inr (Import \<lparr>node = child scope ident,
                      groupName = Some (lit n),
                      groupArn = lit (''arn:'' @ p @ '':'' @ svc @ '':'' @ reg @ '':'' @ acct @ '':'' @ t @ ''/'' @ n),
                      principalAccount = Some (lit acct),
                      assumeRoleAction = ''sts:AssumeRole'',
                      attachedPolicies = [], defaultPolicy = None\<rparr>)"
    by (rule fromGroupArn_literal) (rule parseArn_shape [OF assms])
  show "CHR ''/'' \<in> set n \<longrightarrow> lit n \<noteq> lit (takeWhile (\<lambda>x. x \<noteq> CHR ''/'') n)"
  proof
    assume "CHR ''/'' \<in> set n"
    then have "takeWhile (\<lambda>x. x \<noteq> CHR ''/'') n \<noteq> n"
      by (metis (mono_tags, lifting) set_takeWhileD)
    then show "lit n \<noteq> lit (takeWhile (\<lambda>x. x \<noteq> CHR ''/'') n)"
      by (metis asLiteral_lit option.inject)
  qed
qed

theorem literal_arn_full_name_witness:
  "CHR '':'' \<notin> set ''aws'' \<and> CHR '':'' \<notin> set ''iam'' \<and> CHR '':'' \<notin> set ''''
   \<and> CHR '':'' \<notin> set ''123456789012'' \<and> CHR ''/'' \<notin> set ''group''
   \<and> CHR ''/'' \<in> set ''AdminGroup/NetworkAdmin''
   \<and> fromGroupArn demoScope ''Imported''
        (lit ''arn:aws:iam::123456789012:group/AdminGroup/NetworkAdmin'') =
      Inr (Import \<lparr>node = child demoScope ''Imported'',
                   groupName = Some (lit ''AdminGroup/NetworkAdmin''),
                   groupArn = lit ''arn:aws:iam::123456789012:group/AdminGroup/NetworkAdmin'',
                   principalAccount = Some (lit ''123456789012''),
                   assumeRoleAction = ''sts:AssumeRole'',
                   attachedPolicies = [], defaultPolicy = None\<rparr>)
   \<and> lit ''AdminGroup/NetworkAdmin'' \<noteq> lit ''AdminGroup''"
  using literal_arn_full_name [of "''aws''" "''iam''" "''''" "''123456789012''" "''group''"
      demoScope "''Imported''" "''AdminGroup/NetworkAdmin''"]
  by simp

text \<open>
  C8 (the splitter and the resolution of deferred values are modelled from the spec).
  For a deferred ARN that resolves to \<open>arn:p:svc:reg:acct:t/seg/rest\<close>, the import
  succeeds and keeps the ARN; the name is a deferred value that resolves to the first
  segment \<open>seg\<close> only, not to \<open>seg/rest\<close>.
\<close>

theorem deferred_arn_first_segment:
  assumes "isUnresolved arn"
    and "resolve \<rho> arn =
           Some (''arn:'' @ p @ '':'' @ svc @ '':'' @ reg @ '':'' @ acct @ '':'' @ t @ ''/'' @ seg @ ''/'' @ rest)"
    and "CHR '':'' \<notin> set p" "CHR '':'' \<notin> set svc" "CHR '':'' \<notin> set reg"
    "CHR '':'' \<notin> set acct" "CHR ''/'' \<notin> set t" "CHR ''/'' \<notin> set seg"
  shows "\<exists>b nm. fromGroupArn scope ident arn = Inr (Import b)
           \<and> groupArn b = arn
           \<and> groupName b = Some nm
           \<and> resolve \<rho> nm = Some seg
           \<and> resolve \<rho> nm \<noteq> Some (seg @ ''/'' @ rest)"
proof -
  have "parseArn (''arn:'' @ p @ '':'' @ svc @ '':'' @ reg @ '':'' @ acct @ '':'' @ t @ ''/'' @ (seg @ ''/'' @ rest))
          = Some (p, svc, reg, acct, t, seg @ ''/'' @ rest)"
    using assms(3-7) by (rule parseArn_shape)
  then have "resolve \<rho> [ArnPart ResourceNameHead arn] = Some seg"
    using assms(2) assms(8) by (simp add: resolve_ArnPart takeWhile_head)
  then show ?thesis
    using fromGroupArn_deferred [OF assms(1), of scope ident] by simp
qed

theorem deferred_arn_first_segment_witness:
  "isUnresolved [Tok 2]
   \<and> resolve demoEnv [Tok 2] = Some ''arn:aws:iam::123456789012:group/AdminGroup/NetworkAdmin''
   \<and> (\<exists>b nm. fromGroupArn demoScope ''Imported'' [Tok 2] = Inr (Import b)
         \<and> groupArn b = [Tok 2]
         \<and> groupName b = Some nm
         \<and> resolve demoEnv nm = Some ''AdminGroup''
         \<and> resolve demoEnv nm \<noteq> Some ''AdminGroup/NetworkAdmin'')"
proof -
  have u: "isUnresolved [Tok 2]"
    by (simp add: isUnresolved_def)
  have r: "resolve demoEnv [Tok 2] =
      Some (''arn:'' @ ''aws'' @ '':'' @ ''iam'' @ '':'' @ '''' @ '':'' @ ''123456789012'' @ '':''
            @ ''group'' @ ''/'' @ ''AdminGroup'' @ ''/'' @ ''NetworkAdmin'')"
    by (simp add: resolve_def demoEnv_def)
  show ?thesis
    using u r deferred_arn_first_segment [OF u r, of demoScope "''Imported''"] by simp
qed

section \<open>The ARN of an owned group\<close>

lemma pathPrefix_spec:
  "pathPrefix path = spec_stripLeadingSlash (case path of None \<Rightarrow> [] | Some p \<Rightarrow> p)"
proof (cases path)
  case None
  then show ?thesis by (simp add: pathPrefix_def spec_stripLeadingSlash_def)
next
  case (Some p)
  then show ?thesis
    by (cases p rule: asLiteral.cases)
       (auto simp: pathPrefix_def spec_stripLeadingSlash_def)
qed

lemma physicalName_new:
  "physicalName (fst (Group_new scope ident props app)) =
     fst (Resource_physicalName (props_groupName props) app)"
  by (simp add: Group_new_def Let_def split: prod.splits)

lemma groupArn_new:
  "groupArn (fst (Group_new scope ident props app)) =
     formatArn (Stack_of (child scope ident))
       (groupArnComponents props (physicalName (fst (Group_new scope ident props app))))"
  by (simp add: Group_new_def Let_def getResourceArnAttribute_def
      managedPoliciesExceededWarning_def addWarning_def split: prod.splits)

text \<open>
  C5. The components that the constructor computes for the ARN of an owned group have
  the empty region and, as resource name, the path with one leading slash stripped (an
  absent path counting as empty) followed by the physical name, which is the name given
  in the properties when there is one; the ARN of the group is formatted from these
  components.
\<close>

theorem owned_group_arn_resource_name:
  "resourceName (groupArnComponents props physName)
     = Some (spec_resourceName (props_path props) physName)
   \<and> region (groupArnComponents props physName) = Some (lit '''')
   \<and> groupArn (fst (Group_new scope ident props app)) =
       formatArn (Stack_of scope)
         (groupArnComponents props (physicalName (fst (Group_new scope ident props app))))
   \<and> groupArn (fst (Group_new scope ident props app)) =
       lit ''arn:'' @ stackPartition (Stack_of scope) @ lit '':iam::''
       @ stackAccount (Stack_of scope) @ lit '':group/''
       @ spec_resourceName (props_path props) (physicalName (fst (Group_new scope ident props app)))
   \<and> (props_groupName props = Some n \<longrightarrow>
        physicalName (fst (Group_new scope ident props app)) = n)"
proof (intro conjI impI)
  show 1: "resourceName (groupArnComponents props physName)
     = Some (spec_resourceName (props_path props) physName)" for physName
    by (simp add: groupArnComponents_def spec_resourceName_def pathPrefix_spec)
  show "region (groupArnComponents props physName) = Some (lit '''')"
    by (simp add: groupArnComponents_def)
  show 3: "groupArn (fst (Group_new scope ident props app)) =
       formatArn (Stack_of scope)
         (groupArnComponents props (physicalName (fst (Group_new scope ident props app))))"
    by (simp add: groupArn_new) (simp add: Stack_of_def child_def)
  show "groupArn (fst (Group_new scope ident props app)) =
       lit ''arn:'' @ stackPartition (Stack_of scope) @ lit '':iam::''
       @ stackAccount (Stack_of scope) @ lit '':group/''
       @ spec_resourceName (props_path props) (physicalName (fst (Group_new scope ident props app)))"
    unfolding 3 formatArn_def
    by (simp add: 1) (simp add: groupArnComponents_def lit_def)
  show "physicalName (fst (Group_new scope ident props app)) = n"
    if "props_groupName props = Some n"
    using that by (simp add: physicalName_new Resource_physicalName_def)
qed

theorem owned_group_arn_resource_name_witness:
  "props_groupName (demoProps []) = Some (lit ''NetAdmin'')
   \<and> props_path (demoProps []) = Some (lit ''/admins/'')
   \<and> resourceName (groupArnComponents (demoProps []) (lit ''NetAdmin''))
       = Some (lit ''admins/NetAdmin'')
   \<and> region (groupArnComponents (demoProps []) (lit ''NetAdmin'')) = Some (lit '''')
   \<and> groupArn (fst (Group_new demoScope ''Admins'' (demoProps []) demoApp)) =
       lit ''arn:'' @ [Tok 0] @ lit '':iam::123456789012:group/admins/NetAdmin''"
proof -
  note t = owned_group_arn_resource_name
    [of "demoProps []" "lit ''NetAdmin''" demoScope "''Admins''" demoApp "lit ''NetAdmin''"]
  have n: "props_groupName (demoProps []) = Some (lit ''NetAdmin'')"
    by (simp add: demoProps_def)
  have p: "props_path (demoProps []) = Some (lit ''/admins/'')"
    by (simp add: demoProps_def)
  have s: "spec_resourceName (props_path (demoProps [])) (lit ''NetAdmin'') = lit ''admins/NetAdmin''"
    by (simp add: p spec_resourceName_def spec_stripLeadingSlash_def lit_def)
  from t n have pn: "physicalName (fst (Group_new demoScope ''Admins'' (demoProps []) demoApp))
      = lit ''NetAdmin''"
    by blast
  from t have "groupArn (fst (Group_new demoScope ''Admins'' (demoProps []) demoApp)) =
       lit ''arn:'' @ stackPartition (Stack_of demoScope) @ lit '':iam::''
       @ stackAccount (Stack_of demoScope) @ lit '':group/''
       @ spec_resourceName (props_path (demoProps []))
           (physicalName (fst (Group_new demoScope ''Admins'' (demoProps []) demoApp)))"
    by blast
  then have a: "groupArn (fst (Group_new demoScope ''Admins'' (demoProps []) demoApp)) =
       lit ''arn:'' @ [Tok 0] @ lit '':iam::123456789012:group/admins/NetAdmin''"
    unfolding pn s by (simp add: demoScope_def demoStack_def Stack_of_def lit_def)
  from t s have r: "resourceName (groupArnComponents (demoProps []) (lit ''NetAdmin''))
       = Some (lit ''admins/NetAdmin'')"
    by simp
  from t have "region (groupArnComponents (demoProps []) (lit ''NetAdmin'')) = Some (lit '''')"
    by blast
  with r show ?thesis
    using n p a by blast
qed

section \<open>Importing by name\<close>

lemma asLiteral_Some: "asLiteral v = Some s \<Longrightarrow> v = lit s"
proof (induction v arbitrary: s)
  case Nil
  then show ?case by (simp add: lit_def)
next
  case (Cons f fs)
  then show ?case
    by (cases f) (auto simp: lit_def)
qed

lemma fromGroupArn_resolved:
  assumes res: "resolve \<rho> arn =
           Some (''arn:'' @ p @ '':'' @ svc @ '':'' @ reg @ '':'' @ acct @ '':'' @ t @ ''/'' @ n)"
    and wf: "CHR '':'' \<notin> set p" "CHR '':'' \<notin> set svc" "CHR '':'' \<notin> set reg"
    "CHR '':'' \<notin> set acct" "CHR ''/'' \<notin> set t"
  shows "\<exists>b nm. fromGroupArn scope ident arn = Inr (Import b)
           \<and> groupArn b = arn
           \<and> groupName b = Some nm
           \<and> resolve \<rho> nm =
               Some (if isUnresolved arn then takeWhile (\<lambda>x. x \<noteq> CHR ''/'') n else n)"
proof (cases "isUnresolved arn")
  case True
  have "parseArn (''arn:'' @ p @ '':'' @ svc @ '':'' @ reg @ '':'' @ acct @ '':'' @ t @ ''/'' @ n)
          = Some (p, svc, reg, acct, t, n)"
    using wf by (rule parseArn_shape)
  then have "resolve \<rho> [ArnPart ResourceNameHead arn] = Some (takeWhile (\<lambda>x. x \<noteq> CHR ''/'') n)"
    using res by (simp add: resolve_ArnPart)
  then show ?thesis
    using True fromGroupArn_deferred [OF True, of scope ident] by simp
next
  case False
  then obtain s where s: "asLiteral arn = Some s"
    using asLiteral_None_iff [of arn] by (cases "asLiteral arn") auto
  then have arn: "arn = lit s"
    by (rule asLiteral_Some)
  with res have "s = ''arn:'' @ p @ '':'' @ svc @ '':'' @ reg @ '':'' @ acct @ '':'' @ t @ ''/'' @ n"
    by simp
  then have "parseArn s = Some (p, svc, reg, acct, t, n)"
    using parseArn_shape [OF wf] by simp
  then show ?thesis
    using False fromGroupArn_literal [of s p svc reg acct t n scope ident] arn by simp
qed

lemma resolve_formatArn_group:
  assumes "resolve \<rho> (stackPartition stack) = Some P" "resolve \<rho> (stackAccount stack) = Some A"
    "resolve \<rho> name = Some n"
  shows "resolve \<rho> (formatArn stack
           \<lparr>partition = None, service = lit ''iam'', region = Some (lit ''''), account = None,
            resource = lit ''group'', resourceName = Some name\<rparr>)
         = Some (''arn:'' @ P @ '':'' @ ''iam'' @ '':'' @ '''' @ '':'' @ A @ '':'' @ ''group'' @ ''/'' @ n)"
  using assms by (simp add: formatArn_def resolve_append)

text \<open>
  C6 (the ARN service is modelled from the spec). \<open>fromGroupName\<close> is \<open>fromGroupArn\<close> on
  the ARN formatted with service iam, empty region, resource group and the given
  resource name, so the imported group carries that ARN. When the partition and the
  account of the stack resolve to colon-free text and the literal name \<open>n\<close> has no
  slash, the import succeeds and its name resolves to \<open>n\<close>.
\<close>

theorem fromGroupName_via_fromGroupArn:
  "fromGroupName scope ident name =
     fromGroupArn scope ident
       (formatArn (Stack_of scope)
          \<lparr>partition = None, service = lit ''iam'', region = Some (lit ''''), account = None,
           resource = lit ''group'', resourceName = Some name\<rparr>)
   \<and> (\<forall>b. fromGroupName scope ident name = Inr (Import b) \<longrightarrow>
         groupArn b =
           formatArn (Stack_of scope)
             \<lparr>partition = None, service = lit ''iam'', region = Some (lit ''''), account = None,
              resource = lit ''group'', resourceName = Some name\<rparr>)
   \<and> (resolve \<rho> (stackPartition (Stack_of scope)) = Some P
        \<and> resolve \<rho> (stackAccount (Stack_of scope)) = Some A
        \<and> CHR '':'' \<notin> set P \<and> CHR '':'' \<notin> set A \<and> CHR ''/'' \<notin> set n \<longrightarrow>
        (\<exists>b nm. fromGroupName scope ident (lit n) = Inr (Import b)
           \<and> groupName b = Some nm
           \<and> resolve \<rho> nm = Some n
           \<and> resolve \<rho> (groupArn b) = Some (''arn:'' @ P @ '':iam::'' @ A @ '':group/'' @ n)))"
proof (intro conjI allI impI)
  show "fromGroupName scope ident name =
     fromGroupArn scope ident
       (formatArn (Stack_of scope)
          \<lparr>partition = None, service = lit ''iam'', region = Some (lit ''''), account = None,
           resource = lit ''group'', resourceName = Some name\<rparr>)"
    by (simp add: fromGroupName_def Let_def)
  show "groupArn b =
           formatArn (Stack_of scope)
             \<lparr>partition = None, service = lit ''iam'', region = Some (lit ''''), account = None,
              resource = lit ''group'', resourceName = Some name\<rparr>"
    if "fromGroupName scope ident name = Inr (Import b)" for b
    using that by (auto simp: fromGroupName_def Let_def fromGroupArn_def split: sum.splits)
  show "\<exists>b nm. fromGroupName scope ident (lit n) = Inr (Import b)
           \<and> groupName b = Some nm
           \<and> resolve \<rho> nm = Some n
           \<and> resolve \<rho> (groupArn b) = Some (''arn:'' @ P @ '':iam::'' @ A @ '':group/'' @ n)"
    if h: "resolve \<rho> (stackPartition (Stack_of scope)) = Some P
        \<and> resolve \<rho> (stackAccount (Stack_of scope)) = Some A
        \<and> CHR '':'' \<notin> set P \<and> CHR '':'' \<notin> set A \<and> CHR ''/'' \<notin> set n"
  proof -
    let ?arn = "formatArn (Stack_of scope)
          \<lparr>partition = None, service = lit ''iam'', region = Some (lit ''''), account = None,
           resource = lit ''group'', resourceName = Some (lit n)\<rparr>"
    have r: "resolve \<rho> ?arn =
        Some (''arn:'' @ P @ '':'' @ ''iam'' @ '':'' @ '''' @ '':'' @ A @ '':'' @ ''group'' @ ''/'' @ n)"
      using h by (intro resolve_formatArn_group) simp_all
    have "\<exists>b nm. fromGroupArn scope ident ?arn = Inr (Import b)
           \<and> groupArn b = ?arn
           \<and> groupName b = Some nm
           \<and> resolve \<rho> nm =
               Some (if isUnresolved ?arn then takeWhile (\<lambda>x. x \<noteq> CHR ''/'') n else n)"
      using h by (intro fromGroupArn_resolved [where p = P and svc = "''iam''" and reg = "[]" and acct = A
            and t = "''group''", OF r]) simp_all
    then obtain b nm where b: "fromGroupArn scope ident ?arn = Inr (Import b)"
      "groupArn b = ?arn" "groupName b = Some nm"
      "resolve \<rho> nm = Some (if isUnresolved ?arn then takeWhile (\<lambda>x. x \<noteq> CHR ''/'') n else n)"
      by blast
    from b(4) h have "resolve \<rho> nm = Some n"
      by (simp add: takeWhile_all)
    moreover have "resolve \<rho> (groupArn b) = Some (''arn:'' @ P @ '':iam::'' @ A @ '':group/'' @ n)"
      using r b(2) by simp
    moreover have "fromGroupName scope ident (lit n) = Inr (Import b)"
      using b(1) by (simp add: fromGroupName_def Let_def)
    ultimately show ?thesis
      using b(3) by blast
  qed
qed

theorem fromGroupName_via_fromGroupArn_witness:
  "resolve demoEnv (stackPartition (Stack_of demoScope)) = Some ''aws''
   \<and> resolve demoEnv (stackAccount (Stack_of demoScope)) = Some ''123456789012''
   \<and> CHR '':'' \<notin> set ''aws'' \<and> CHR '':'' \<notin> set ''123456789012''
   \<and> CHR ''/'' \<notin> set ''Admins''
   \<and> (\<exists>b nm. fromGroupName demoScope ''Imported'' (lit ''Admins'') = Inr (Import b)
         \<and> groupName b = Some nm
         \<and> resolve demoEnv nm = Some ''Admins''
         \<and> resolve demoEnv (groupArn b) = Some ''arn:aws:iam::123456789012:group/Admins'')"
proof -
  have p: "resolve demoEnv (stackPartition (Stack_of demoScope)) = Some ''aws''"
    by (simp add: resolve_def Stack_of_def demoScope_def demoStack_def demoEnv_def)
  have a: "resolve demoEnv (stackAccount (Stack_of demoScope)) = Some ''123456789012''"
    by (simp add: Stack_of_def demoScope_def demoStack_def)
  have c: "CHR '':'' \<notin> set ''aws'' \<and> CHR '':'' \<notin> set ''123456789012''
      \<and> CHR ''/'' \<notin> set ''Admins''"
    by simp
  from p a c have
    "\<exists>b nm. fromGroupName demoScope ''Imported'' (lit ''Admins'') = Inr (Import b)
         \<and> groupName b = Some nm
         \<and> resolve demoEnv nm = Some ''Admins''
         \<and> resolve demoEnv (groupArn b) = Some (''arn:'' @ ''aws'' @ '':iam::'' @ ''123456789012'' @ '':group/'' @ ''Admins'')"
    using fromGroupName_via_fromGroupArn
      [where \<rho> = demoEnv and scope = demoScope and P = "''aws''" and A = "''123456789012''"
         and n = "''Admins''" and ident = "''Imported''"]
    by blast
  then show ?thesis
    using p a c by simp
qed

section \<open>Statements\<close>

lemma addToPrincipalPolicy_first:
  assumes "defaultPolicy g = None"
  shows "addToPrincipalPolicy g s app =
           (\<lparr>statementAdded = True, policyDependable = nextId app\<rparr>,
            g\<lparr>defaultPolicy := Some (nextId app),
              attachedPolicies := AttachedPolicies_attach (attachedPolicies g) (nextId app)\<rparr>,
            app\<lparr>nextId := Suc (nextId app),
                policies := (policies app)(nextId app \<mapsto>
                  \<lparr>policyScope = nodePath (node g), policyId = ''DefaultPolicy'',
                   policyStatements = [s], policyGroups = [nodePath (node g)]\<rparr>)\<rparr>)"
  using assms
  by (simp add: addToPrincipalPolicy_def Policy_new_def Policy_attachToGroup_def
      Policy_addStatements_def updPolicy_def)

lemma addToPrincipalPolicy_later:
  assumes "defaultPolicy g = Some r"
  shows "addToPrincipalPolicy g s app =
           (\<lparr>statementAdded = True, policyDependable = r\<rparr>, g,
            Policy_addStatements r [s] app)"
  using assms by (simp add: addToPrincipalPolicy_def)

lemma nextId_addStatements [simp]: "nextId (Policy_addStatements r sts app) = nextId app"
  by (simp add: Policy_addStatements_def updPolicy_def split: option.splits)

lemma dom_addStatements [simp]:
  "dom (policies (Policy_addStatements r sts app)) = dom (policies app)"
  by (auto simp: Policy_addStatements_def updPolicy_def split: option.splits)

lemma statements_addStatements:
  "map_option policyStatements (policies (Policy_addStatements r sts app) r) =
     map_option (\<lambda>xs. xs @ sts) (map_option policyStatements (policies app r))"
  by (simp add: Policy_addStatements_def updPolicy_def split: option.splits)

lemma attach_member: "r \<in> set (AttachedPolicies_attach ledger r)"
  by (simp add: AttachedPolicies_attach_def)

text \<open>
  C3. For a group of either kind, \<open>addToPrincipalPolicy\<close> returns \<open>statementAdded\<close>
  true and, as dependency, the reference the group holds as its default policy. When the
  group has none yet, the call creates one policy named \<open>DefaultPolicy\<close> in the scope
  of the group, attaches it through \<open>attachToGroup\<close>, after which the policy lists the
  group and the group's ledger of attached policies lists the policy, and gives it the
  statement; when the group has one, the call creates nothing, leaves the group as it is
  and returns that same reference, as does every later call, which appends to the same
  policy.
\<close>

theorem addToPrincipalPolicy_default_policy:
  fixes g :: "'a GroupBase_scheme"
  shows
  "(case addToPrincipalPolicy g sa app of (res1, g1, app1) \<Rightarrow>
     statementAdded res1 = True
     \<and> defaultPolicy g1 = Some (policyDependable res1)
     \<and> (defaultPolicy g = None \<longrightarrow>
          policyDependable res1 = nextId app
          \<and> g1 = g\<lparr>defaultPolicy := Some (nextId app),
                    attachedPolicies :=
                      AttachedPolicies_attach (attachedPolicies g) (nextId app)\<rparr>
          \<and> policyDependable res1 \<in> set (attachedPolicies g1)
          \<and> nextId app1 = Suc (nextId app)
          \<and> policies app1 = (policies app)(nextId app \<mapsto>
               \<lparr>policyScope = nodePath (node g), policyId = ''DefaultPolicy'',
                policyStatements = [sa], policyGroups = [nodePath (node g)]\<rparr>))
     \<and> (\<forall>r. defaultPolicy g = Some r \<longrightarrow>
          policyDependable res1 = r \<and> g1 = g \<and> nextId app1 = nextId app
          \<and> dom (policies app1) = dom (policies app))
     \<and> (case addToPrincipalPolicy g1 sb app1 of (res2, g2, app2) \<Rightarrow>
          statementAdded res2 = True
          \<and> policyDependable res2 = policyDependable res1
          \<and> g2 = g1
          \<and> nextId app2 = nextId app1
          \<and> dom (policies app2) = dom (policies app1)
          \<and> map_option policyStatements (policies app2 (policyDependable res1)) =
              map_option (\<lambda>xs. xs @ [sb])
                (map_option policyStatements (policies app1 (policyDependable res1)))))"
proof (cases "defaultPolicy g")
  case None
  show ?thesis
    unfolding addToPrincipalPolicy_first [OF None]
    by (simp add: addToPrincipalPolicy_later None Policy_addStatements_def updPolicy_def
        attach_member)
next
  case (Some r)
  show ?thesis
    unfolding addToPrincipalPolicy_later [OF Some]
    by (simp add: addToPrincipalPolicy_later Some statements_addStatements)
qed

theorem addToPrincipalPolicy_default_policy_witness:
  "defaultPolicy demoBase = None
   \<and> addToPrincipalPolicy demoBase (Statement ''s'') demoApp =
       (\<lparr>statementAdded = True, policyDependable = 2\<rparr>,
        demoBase\<lparr>defaultPolicy := Some 2, attachedPolicies := [2]\<rparr>,
        \<lparr>nextId = 3,
         policies = Map.empty(2 \<mapsto>
           \<lparr>policyScope = [''App'', ''Stack'', ''Imported''], policyId = ''DefaultPolicy'',
            policyStatements = [Statement ''s''],
            policyGroups = [[''App'', ''Stack'', ''Imported'']]\<rparr>)\<rparr>)
   \<and> addToPrincipalPolicy (demoBase\<lparr>defaultPolicy := Some 2, attachedPolicies := [2]\<rparr>)
        (Statement ''t'')
        \<lparr>nextId = 3,
         policies = Map.empty(2 \<mapsto>
           \<lparr>policyScope = [''App'', ''Stack'', ''Imported''], policyId = ''DefaultPolicy'',
            policyStatements = [Statement ''s''],
            policyGroups = [[''App'', ''Stack'', ''Imported'']]\<rparr>)\<rparr>
      = (\<lparr>statementAdded = True, policyDependable = 2\<rparr>,
         demoBase\<lparr>defaultPolicy := Some 2, attachedPolicies := [2]\<rparr>,
         \<lparr>nextId = 3,
          policies = Map.empty(2 \<mapsto>
            \<lparr>policyScope = [''App'', ''Stack'', ''Imported''], policyId = ''DefaultPolicy'',
             policyStatements = [Statement ''s'', Statement ''t''],
             policyGroups = [[''App'', ''Stack'', ''Imported'']]\<rparr>)\<rparr>)"
proof -
  have n: "defaultPolicy demoBase = None"
    by (simp add: demoBase_def)
  note t = addToPrincipalPolicy_default_policy
    [where g = demoBase and sa = "Statement ''s''" and app = demoApp and sb = "Statement ''t''"]
  obtain res1 g1 app1 where r1: "addToPrincipalPolicy demoBase (Statement ''s'') demoApp = (res1, g1, app1)"
    by (cases "addToPrincipalPolicy demoBase (Statement ''s'') demoApp") auto
  obtain res2 g2 app2 where r2: "addToPrincipalPolicy g1 (Statement ''t'') app1 = (res2, g2, app2)"
    by (cases "addToPrincipalPolicy g1 (Statement ''t'') app1") auto
  from t r1 r2 n have
    a: "statementAdded res1 = True" "policyDependable res1 = nextId demoApp"
      "g1 = demoBase\<lparr>defaultPolicy := Some (nextId demoApp),
                     attachedPolicies :=
                       AttachedPolicies_attach (attachedPolicies demoBase) (nextId demoApp)\<rparr>"
      "nextId app1 = Suc (nextId demoApp)"
      "policies app1 = (policies demoApp)(nextId demoApp \<mapsto>
               \<lparr>policyScope = nodePath (node demoBase), policyId = ''DefaultPolicy'',
                policyStatements = [Statement ''s''], policyGroups = [nodePath (node demoBase)]\<rparr>)"
    and b: "statementAdded res2 = True" "policyDependable res2 = policyDependable res1"
      "g2 = g1" "nextId app2 = nextId app1"
    by simp_all
  have e1: "res1 = \<lparr>statementAdded = True, policyDependable = 2\<rparr>"
    using a(1,2) by (simp add: demoApp_def)
  have e2: "res2 = \<lparr>statementAdded = True, policyDependable = 2\<rparr>"
    using b(1,2) e1 by simp
  have e3: "app1 = \<lparr>nextId = 3,
         policies = Map.empty(2 \<mapsto>
           \<lparr>policyScope = [''App'', ''Stack'', ''Imported''], policyId = ''DefaultPolicy'',
            policyStatements = [Statement ''s''],
            policyGroups = [[''App'', ''Stack'', ''Imported'']]\<rparr>)\<rparr>"
    using a(4,5) by (simp add: demoApp_def demoBase_def)
  have e4: "g1 = demoBase\<lparr>defaultPolicy := Some 2, attachedPolicies := [2]\<rparr>"
    using a(3) by (simp add: demoApp_def demoBase_def AttachedPolicies_attach_def)
  have e5: "app2 = \<lparr>nextId = 3,
          policies = Map.empty(2 \<mapsto>
            \<lparr>policyScope = [''App'', ''Stack'', ''Imported''], policyId = ''DefaultPolicy'',
             policyStatements = [Statement ''s'', Statement ''t''],
             policyGroups = [[''App'', ''Stack'', ''Imported'']]\<rparr>)\<rparr>"
    using r2 unfolding e3 e4
    by (simp add: addToPrincipalPolicy_def Policy_addStatements_def updPolicy_def)
  show ?thesis
    using n r1 r2 e1 e2 e3 e4 e5 b(3) by simp
qed

text \<open>
  C10. \<open>addToPolicy\<close> returns the \<open>statementAdded\<close> flag of \<open>addToPrincipalPolicy\<close>,
  which is true, for an imported group as for an owned one, and leaves the same state.
\<close>

theorem addToPolicy_true:
  "fst (addToPolicy g statement app) = True
   \<and> fst (addToPolicy g statement app) = statementAdded (fst (addToPrincipalPolicy g statement app))
   \<and> snd (addToPolicy g statement app) = snd (addToPrincipalPolicy g statement app)"
  by (simp add: addToPolicy_def addToPrincipalPolicy_def Let_def split: option.splits prod.splits)

theorem addToPolicy_true_witness:
  "fst (addToPolicy demoBase (Statement ''s'') demoApp) = True
   \<and> fst (addToPolicy (demoBase\<lparr>defaultPolicy := Some 7\<rparr>) (Statement ''s'') demoApp) = True"
  using addToPolicy_true [of demoBase "Statement ''s''" demoApp]
    addToPolicy_true [of "demoBase\<lparr>defaultPolicy := Some 7\<rparr>" "Statement ''s''" demoApp]
  by simp

section \<open>The emitted list of managed policies\<close>

lemma cfn_managedPolicyArns_new:
  "cfn_managedPolicyArns (fst (snd (Group_new scope ident props app))) =
     \<lparr>produce = (\<lambda>g. map managedPolicyArn (managedPolicies g)), omitEmpty = True\<rparr>"
  by (simp add: Group_new_def Let_def split: prod.splits)

lemma emit_new:
  "tpl_managedPolicyArns (emit (fst (snd (Group_new scope ident props app))) g) =
     (if managedPolicies g = [] then None else Some (map managedPolicyArn (managedPolicies g)))"
  by (simp add: emit_def resolveLazyList_def cfn_managedPolicyArns_new)

text \<open>
  C9 (\<open>Lazy.list\<close> and emission are modelled from the spec). The producer that the
  constructor hands to the resource reads the list of the group when emission calls
  it: for a group constructed and then given any additions, the emitted attribute is
  the ARNs of the policies then in the list, in order, so every policy added after
  construction appears; when the list is empty the attribute is absent.
\<close>

theorem managedPolicyArns_lazy:
  "(case Group_new scope ident props app of (g0, res, app') \<Rightarrow>
      tpl_managedPolicyArns (emit res (foldl Group_addManagedPolicy g0 ps)) =
        (if managedPolicies (foldl Group_addManagedPolicy g0 ps) = [] then None
         else Some (map managedPolicyArn (managedPolicies (foldl Group_addManagedPolicy g0 ps))))
      \<and> set (managedPolicies (foldl Group_addManagedPolicy g0 ps)) =
          set (orEmpty (props_managedPolicies props)) \<union> set ps
      \<and> (orEmpty (props_managedPolicies props) = [] \<and> ps = [] \<longrightarrow>
           tpl_managedPolicyArns (emit res (foldl Group_addManagedPolicy g0 ps)) = None)
      \<and> (\<forall>p \<in> set ps. \<exists>arns.
           tpl_managedPolicyArns (emit res (foldl Group_addManagedPolicy g0 ps)) = Some arns
           \<and> managedPolicyArn p \<in> set arns))"
proof -
  obtain g0 res app' where n: "Group_new scope ident props app = (g0, res, app')"
    by (cases "Group_new scope ident props app") auto
  let ?g = "foldl Group_addManagedPolicy g0 ps"
  have g0: "managedPolicies g0 = orEmpty (props_managedPolicies props)"
    using managedPolicies_new [of scope ident props app] n by simp
  have e: "tpl_managedPolicyArns (emit res g) =
     (if managedPolicies g = [] then None else Some (map managedPolicyArn (managedPolicies g)))" for g
    using emit_new [of scope ident props app g] n by simp
  have s: "set (managedPolicies ?g) = set (orEmpty (props_managedPolicies props)) \<union> set ps"
    by (simp add: set_foldl_add g0)
  have "tpl_managedPolicyArns (emit res ?g) = None"
    if "orEmpty (props_managedPolicies props) = [] \<and> ps = []"
    using that g0 by (simp add: e)
  moreover have "\<exists>arns. tpl_managedPolicyArns (emit res ?g) = Some arns \<and> managedPolicyArn p \<in> set arns"
    if "p \<in> set ps" for p
  proof -
    from that s have "p \<in> set (managedPolicies ?g)" by simp
    then show ?thesis
      by (auto simp: e)
  qed
  ultimately show ?thesis
    using n e s by simp
qed

theorem managedPolicyArns_lazy_witness:
  "orEmpty (props_managedPolicies (demoProps [])) = []
   \<and> (case Group_new demoScope ''Admins'' (demoProps []) demoApp of (g0, res, app') \<Rightarrow>
        tpl_managedPolicyArns (emit res g0) = None
        \<and> tpl_managedPolicyArns (emit res (foldl Group_addManagedPolicy g0 [demoPolicy 3, demoPolicy 3]))
            = Some [managedPolicyArn (demoPolicy 3)])"
proof -
  obtain g0 res app' where n: "Group_new demoScope ''Admins'' (demoProps []) demoApp = (g0, res, app')"
    by (cases "Group_new demoScope ''Admins'' (demoProps []) demoApp") auto
  have e: "orEmpty (props_managedPolicies (demoProps [])) = []"
    by (simp add: demoProps_def orEmpty_def)
  have g0: "managedPolicies g0 = []"
    using managedPolicies_new [of demoScope "''Admins''" "demoProps []" demoApp] n e by simp
  have 1: "tpl_managedPolicyArns (emit res g0) = None"
    using managedPolicyArns_lazy [where scope = demoScope and ident = "''Admins''"
        and props = "demoProps []" and app = demoApp and ps = "[]"] n e
    by simp
  have 2: "tpl_managedPolicyArns (emit res (foldl Group_addManagedPolicy g0 [demoPolicy 3, demoPolicy 3]))
            = Some [managedPolicyArn (demoPolicy 3)]"
    using managedPolicyArns_lazy [where scope = demoScope and ident = "''Admins''"
        and props = "demoProps []" and app = demoApp and ps = "[demoPolicy 3, demoPolicy 3]"] n
    by (simp add: managedPolicies_add g0)
  show ?thesis
    using e n 1 2 by simp
qed

end
